theory Spec2Isabelle
  imports Complex_Main
begin

section \<open>Redirect mapper: fetching, crawling, batching, matching, summary\<close>

text \<open>
  A shallow embedding of \<^verbatim>\<open>app.py\<close>. Python dictionaries with fixed keys are records,
  exceptions are values of a datatype, and everything the code does to the outside world
  (HTTP requests, sleeps, progress reports, calls of the inference service) is appended to
  a trace of events that each function takes and returns. The outside world answers
  through parameters: \<open>net\<close> for the HTTP client, \<open>gen\<close> for the inference
  service, \<open>loads\<close> for the JSON parser of the Python library.
  Python strings are \<open>string\<close>; Python integers that count things are \<open>nat\<close>;
  durations and fractions are exact rationals, and so is every finite float: a decimal
  literal, in the source or in a response, is the rational it denotes.
  Only exceptions of the class \<^verbatim>\<open>Exception\<close> are modelled, which is what the
  handlers of the source take; an interrupt of the process is outside the model.
\<close>

subsection \<open>Strings\<close>

text \<open>\<^verbatim>\<open>str(n)\<close> of a non-negative integer.\<close>

fun str_nat :: "nat \<Rightarrow> string" where
  "str_nat n =
     (if n < 10 then [''0123456789'' ! n]
      else str_nat (n div 10) @ [''0123456789'' ! (n mod 10)])"

declare str_nat.simps [simp del]

text \<open>\<^verbatim>\<open>sep.join(xs)\<close>.\<close>

fun join :: "string \<Rightarrow> string list \<Rightarrow> string" where
  "join sep [] = []"
| "join sep [x] = x"
| "join sep (x # y # ys) = x @ sep @ join sep (y # ys)"

text \<open>\<^verbatim>\<open>sub in s\<close> on strings.\<close>

fun contains :: "string \<Rightarrow> string \<Rightarrow> bool" where
  "contains sub [] = (sub = [])"
| "contains sub (c # cs) = (take (length sub) (c # cs) = sub \<or> contains sub cs)"

text \<open>
  \<^verbatim>\<open>s.replace(old, new)\<close>: the occurrences of \<open>old\<close> are replaced from the left,
  without overlap. The source calls it with non-empty \<open>old\<close> only; for an empty
  \<open>old\<close> (where Python inserts \<open>new\<close> around every character) the model returns
  \<open>s\<close> unchanged.
\<close>

function replace :: "string \<Rightarrow> string \<Rightarrow> string \<Rightarrow> string" where
  "replace [] old new = []"
| "replace (c # cs) old new =
     (if old \<noteq> [] \<and> take (length old) (c # cs) = old
      then new @ replace (drop (length old) (c # cs)) old new
      else c # replace cs old new)"
  by pat_completeness auto
termination
  by (relation "measure (\<lambda>(s, old, new). length s)") (auto simp: neq_Nil_conv)

text \<open>
  \<^verbatim>\<open>s.strip()\<close>: Python's white space among the characters below 256 is
  9 to 13, 28 to 32, 133 and 160.
\<close>

definition isspace :: "char \<Rightarrow> bool" where
  "isspace c =
     (let n = of_char c :: nat
      in (9 \<le> n \<and> n \<le> 13) \<or> (28 \<le> n \<and> n \<le> 32) \<or> n = 133 \<or> n = 160)"

definition strip :: "string \<Rightarrow> string" where
  "strip s = rev (dropWhile isspace (rev (dropWhile isspace s)))"

subsection \<open>Data model\<close>

datatype status = success | failed | auth_required

text \<open>
  A dictionary with the key \<^verbatim>\<open>url\<close>, as \<^verbatim>\<open>match_urls\<close> builds it from a bare
  URL; the dictionary that \<^verbatim>\<open>fetch_page_content\<close> returns has that key and six more.
\<close>

record item =
  url :: string

record signal = item +
  title :: string
  heading :: string
  description :: string
  content :: string
  status :: status
  error :: "string option"

record credentials =
  username :: string
  password :: string

text \<open>The arguments of \<^verbatim>\<open>requests.get\<close>.\<close>

record request =
  req_url :: string
  headers :: "(string \<times> string) list"
  timeout :: nat
  allow_redirects :: bool
  auth :: "(string \<times> string) option"

text \<open>
  What the parsed page offers to the extraction: the text of the \<^verbatim>\<open>title\<close> element
  and of the first \<^verbatim>\<open>h1\<close> if there is one, the \<^verbatim>\<open>content\<close> attribute of the
  description \<^verbatim>\<open>meta\<close> element (outer \<open>None\<close>: no such element, inner
  \<open>None\<close>: no such attribute), and the texts of all \<^verbatim>\<open>p\<close> elements.
\<close>

record soup =
  title_tag :: "string option"
  h1_tag :: "string option"
  meta_description :: "string option option"
  p_tags :: "string list"

text \<open>
  The exceptions the \<^verbatim>\<open>try\<close> block can raise, by the \<^verbatim>\<open>except\<close> clause that
  takes them: a timeout, an HTTP error with its status code, and any other
  \<^verbatim>\<open>Exception\<close> with its message \<^verbatim>\<open>str(e)\<close>.
\<close>

datatype exn = Timeout | HTTPError nat | OtherException string

text \<open>
  What one \<^verbatim>\<open>requests.get\<close> and the parsing of its body come to: an exception,
  or a response with a status code and a parsed page.
\<close>

datatype outcome = Raise exn | Response nat soup

text \<open>Everything the program does to the outside world, in order.\<close>

datatype event =
    Get request
  | Sleep rat
  | StatusText string
  | Progress rat
  | GenerateContent string string
  | StError string

type_synonym trace = "event list"

text \<open>
  The HTTP client: the outcome of a request may depend on everything that happened
  before it.
\<close>

type_synonym net = "trace \<Rightarrow> request \<Rightarrow> outcome"

subsection \<open>\<^verbatim>\<open>fetch_page_content\<close>\<close>

definition user_agents :: "string list" where
  "user_agents =
     [''Mozilla/5.0 (Windows NT 10.0; Win64; x64) AppleWebKit/537.36'',
      ''Mozilla/5.0 (Macintosh; Intel Mac OS X 10_15_7) AppleWebKit/537.36'',
      ''Mozilla/5.0 (X11; Linux x86_64) AppleWebKit/537.36'']"

definition build_request :: "string \<Rightarrow> nat \<Rightarrow> credentials option \<Rightarrow> request" where
  "build_request u retry_count creds =
     \<lparr> req_url = u,
       headers =
         [(''User-Agent'', user_agents ! (retry_count mod length user_agents)),
          (''Accept'', ''text/html,application/xhtml+xml,application/xml;q=0.9,*/*;q=0.8''),
          (''Accept-Language'', ''en-US,en;q=0.5'')],
       timeout = 15,
       allow_redirects = True,
       auth = (case creds of None \<Rightarrow> None
               | Some c \<Rightarrow> Some (username c, password c)) \<rparr>"

text \<open>\<^verbatim>\<open>response.raise_for_status()\<close> of the requests library.\<close>

definition raise_for_status :: "nat \<Rightarrow> exn + unit" where
  "raise_for_status code =
     (if 400 \<le> code \<and> code < 600 then Inl (HTTPError code) else Inr ())"

text \<open>The extraction of the signals from a parsed page.\<close>

definition extract_signals :: "string \<Rightarrow> soup \<Rightarrow> signal" where
  "extract_signals u s =
     \<lparr> url = u,
       title = (case title_tag s of Some t \<Rightarrow> strip t | None \<Rightarrow> []),
       heading = (case h1_tag s of Some t \<Rightarrow> strip t | None \<Rightarrow> []),
       description =
         (case meta_description s of
            Some (Some t) \<Rightarrow> strip t | Some None \<Rightarrow> strip [] | None \<Rightarrow> []),
       content = take 500 (join '' '' (map strip (take 3 (p_tags s)))),
       status = success,
       error = None \<rparr>"

text \<open>The body of the \<^verbatim>\<open>try\<close> block, given what the request came to.\<close>

definition try_body :: "string \<Rightarrow> outcome \<Rightarrow> exn + signal" where
  "try_body u out =
     (case out of
        Raise e \<Rightarrow> Inl e
      | Response code s \<Rightarrow>
          (case raise_for_status code of
             Inl e \<Rightarrow> Inl e
           | Inr _ \<Rightarrow> Inr (extract_signals u s)))"

text \<open>The dictionary of the failure branches.\<close>

definition no_content :: "string \<Rightarrow> status \<Rightarrow> string \<Rightarrow> signal" where
  "no_content u st msg =
     \<lparr> url = u, title = [], heading = [], description = [], content = [],
       status = st, error = Some msg \<rparr>"

function fetch_page_content ::
  "net \<Rightarrow> string \<Rightarrow> nat \<Rightarrow> nat \<Rightarrow> credentials option \<Rightarrow> trace \<Rightarrow> signal \<times> trace"
where
  "fetch_page_content net u retry_count max_retries creds tr =
     (let req = build_request u retry_count creds;
          tr1 = tr @ [Get req]
      in case try_body u (net tr req) of
           Inr sig \<Rightarrow> (sig, tr1)
         | Inl Timeout \<Rightarrow>
             if retry_count < max_retries
             then fetch_page_content net u (retry_count + 1) max_retries creds
                    (tr1 @ [Sleep (2 ^ retry_count)])
             else (no_content u failed ''Timeout'', tr1)
         | Inl (HTTPError code) \<Rightarrow>
             if code \<in> set [401, 403]
             then (no_content u auth_required
                     (''Authentication required (HTTP '' @ str_nat code @ '')''), tr1)
             else if retry_count < max_retries \<and> code \<in> set [429, 500, 502, 503, 504]
             then fetch_page_content net u (retry_count + 1) max_retries creds
                    (tr1 @ [Sleep (3 ^ retry_count)])
             else (no_content u failed (''HTTP '' @ str_nat code), tr1)
         | Inl (OtherException msg) \<Rightarrow> (no_content u failed (take 100 msg), tr1))"
  by pat_completeness auto
termination
  by (relation "measure (\<lambda>(net, u, retry_count, max_retries, creds, tr).
                  max_retries - retry_count)") auto

declare fetch_page_content.simps [simp del]

text \<open>The requests of a trace, in order.\<close>

fun gets :: "trace \<Rightarrow> request list" where
  "gets [] = []"
| "gets (Get r # es) = r # gets es"
| "gets (e # es) = gets es"

subsection \<open>\<^verbatim>\<open>crawl_urls\<close>\<close>



subsection \<open>JSON values\<close>

text \<open>
  What \<^verbatim>\<open>json.loads\<close> returns. A Python \<^verbatim>\<open>int\<close> is unbounded; a \<^verbatim>\<open>float\<close> is
  the exact rational it stands for, or one of the three values that are no number
  (\<^verbatim>\<open>json.loads\<close> reads \<^verbatim>\<open>NaN\<close>, \<^verbatim>\<open>Infinity\<close> and \<^verbatim>\<open>-Infinity\<close>).
  A dictionary is the list of its items in insertion order; its keys are distinct.
\<close>

datatype pyfloat = Finite rat | NaN | PosInf | NegInf

datatype json =
    JNull
  | JBool bool
  | JInt int
  | JFloat pyfloat
  | JStr string
  | JArr "json list"
  | JObj "(string \<times> json) list"

text \<open>
  An exception caught by \<^verbatim>\<open>except Exception as e\<close> in \<^verbatim>\<open>match_urls\<close> is the
  message \<^verbatim>\<open>str(e)\<close>, which is all the handler reads.
\<close>

type_synonym 'a raising = "string + 'a"

text \<open>
  The inference service: what \<^verbatim>\<open>client.models.generate_content\<close> does at the call
  of batch \<open>batch_num\<close> for a model name and a prompt. It raises, or returns a
  response whose \<^verbatim>\<open>text\<close> is a string or \<^verbatim>\<open>None\<close>.
\<close>

type_synonym gen = "nat \<Rightarrow> string \<Rightarrow> string \<Rightarrow> string option raising"

text \<open>\<^verbatim>\<open>json.loads\<close>: it raises or returns a value.\<close>

type_synonym loads = "string \<Rightarrow> json raising"

text \<open>
  The items that \<^verbatim>\<open>all_matches.extend(v)\<close> appends: the elements of a list, the keys
  of a dictionary, the characters of a string; any other value is not iterable, and
  \<^verbatim>\<open>extend\<close> raises before it appends anything.
\<close>

definition not_iterable :: "string \<Rightarrow> string" where
  "not_iterable ty = [CHR 0x27] @ ty @ [CHR 0x27] @ '' object is not iterable''"

fun iterate :: "json \<Rightarrow> json list raising" where
  "iterate (JArr xs) = Inr xs"
| "iterate (JObj kvs) = Inr (map (\<lambda>kv. JStr (fst kv)) kvs)"
| "iterate (JStr s) = Inr (map (\<lambda>c. JStr [c]) s)"
| "iterate JNull = Inl (not_iterable ''NoneType'')"
| "iterate (JBool b) = Inl (not_iterable ''bool'')"
| "iterate (JInt i) = Inl (not_iterable ''int'')"
| "iterate (JFloat f) = Inl (not_iterable ''float'')"

subsection \<open>\<^verbatim>\<open>match_urls\<close>\<close>

text \<open>\<^verbatim>\<open>xs[start:end]\<close> for indices that are not negative.\<close>

definition slice :: "'a list \<Rightarrow> nat \<Rightarrow> nat \<Rightarrow> 'a list" where
  "slice xs start_idx end_idx = take (end_idx - start_idx) (drop start_idx xs)"

text \<open>
  \<^verbatim>\<open>(len(old_data) + batch_size - 1) // batch_size\<close>. The source divides by 100 or by
  50; HOL's division by 0 is 0 where Python raises.
\<close>

definition total_batches :: "nat \<Rightarrow> nat \<Rightarrow> nat" where
  "total_batches n batch_size = (n + batch_size - 1) div batch_size"

text \<open>The slice \<^verbatim>\<open>old_batch\<close> of the turn \<open>batch_num\<close> of the loop.\<close>

definition old_batch :: "'a list \<Rightarrow> nat \<Rightarrow> nat \<Rightarrow> 'a list" where
  "old_batch old_data batch_size batch_num =
     (let start_idx = batch_num * batch_size;
          end_idx = min (start_idx + batch_size) (length old_data)
      in slice old_data start_idx end_idx)"

text \<open>The batches the loop walks through, in order.\<close>

definition batches :: "'a list \<Rightarrow> nat \<Rightarrow> 'a list list" where
  "batches old_data batch_size =
     map (old_batch old_data batch_size) [0..<total_batches (length old_data) batch_size]"

definition batch_size_of :: "string \<Rightarrow> nat" where
  "batch_size_of model_name = (if contains ''flash'' model_name then 100 else 50)"

text \<open>The block of one crawled item in the prompt.\<close>

definition crawled_block :: "signal \<Rightarrow> string" where
  "crawled_block it =
     ''URL: '' @ url it @ ''\<newline>Title: '' @ title it @ ''\<newline>Heading: '' @ heading it
       @ ''\<newline>Description: '' @ description it @ ''\<newline>Content: '' @ content it"

definition response_format :: "string \<Rightarrow> string" where
  \<open>response_format reason =
     ''\<newline>\<newline>Return ONLY a JSON array with this exact structure (no markdown, no preamble):\<newline>''
     @ ''[\<newline>  {\<newline>    "oldUrl": "old-url-here",\<newline>    "newUrl": "new-url-here",\<newline>''
     @ ''    "confidence": 0.95,\<newline>    "reason": "'' @ reason @ ''"\<newline>  }\<newline>]\<newline>\<newline>''
     @ ''Match as many old URLs as possible. Use confidence scores: ''
     @ ''1.0 = perfect match, 0.7-0.9 = good match, 0.5-0.6 = uncertain match.''\<close>

text \<open>The prompt of the crawled mode for given items of the two sides.\<close>

definition crawled_text :: "signal list \<Rightarrow> signal list \<Rightarrow> string" where
  "crawled_text old_items new_items =
     (let old_urls_text = join ''\<newline>\<newline>'' (map crawled_block old_items);
          new_urls_text = join ''\<newline>\<newline>'' (map crawled_block new_items)
      in ''You are a URL redirect mapping expert. Match old URLs to new URLs based on ''
         @ ''semantic similarity, content analysis, and URL structure.''
         @ ''\<newline>\<newline>Old URLs with content:\<newline>'' @ old_urls_text
         @ ''\<newline>\<newline>New URLs with content:\<newline>'' @ new_urls_text
         @ response_format ''brief reason for match based on content similarity'')"

text \<open>
  The source renders the items of the batch, and those items of the whole
  \<^verbatim>\<open>new_data\<close> whose status is \<^verbatim>\<open>success\<close>.
\<close>

definition crawled_prompt :: "signal list \<Rightarrow> signal list \<Rightarrow> string" where
  "crawled_prompt old_items new_data =
     crawled_text old_items (filter (\<lambda>it. status it = success) new_data)"

text \<open>The prompt of the other mode: one URL on each line.\<close>

definition url_prompt :: "item list \<Rightarrow> item list \<Rightarrow> string" where
  "url_prompt old_items new_data =
     (let old_urls_text = join ''\<newline>'' (map url old_items);
          new_urls_text = join ''\<newline>'' (map url new_data)
      in ''You are a URL redirect mapping expert. Match old URLs to new URLs based on ''
         @ ''semantic similarity, content keywords, and URL structure.''
         @ ''\<newline>\<newline>Old URLs:\<newline>'' @ old_urls_text
         @ ''\<newline>\<newline>New URLs:\<newline>'' @ new_urls_text
         @ response_format ''brief reason for match'')"

text \<open>The response text without its code fences and outer white space.\<close>

definition clean_text :: "string \<Rightarrow> string" where
  "clean_text response_text = strip (replace (replace response_text ''```json'' []) ''```'' [])"

text \<open>
  The body of the \<^verbatim>\<open>try\<close> block of one batch, up to the items that \<^verbatim>\<open>extend\<close>
  appends. A response whose \<^verbatim>\<open>text\<close> is \<^verbatim>\<open>None\<close> raises at \<^verbatim>\<open>.replace\<close>.
\<close>

definition batch_try :: "gen \<Rightarrow> loads \<Rightarrow> string \<Rightarrow> nat \<Rightarrow> string \<Rightarrow> json list raising" where
  "batch_try gen loads model_name batch_num prompt =
     (case gen batch_num model_name prompt of
        Inl msg \<Rightarrow> Inl msg
      | Inr None \<Rightarrow>
          Inl ([CHR 0x27] @ ''NoneType'' @ [CHR 0x27] @ '' object has no attribute ''
                 @ [CHR 0x27] @ ''replace'' @ [CHR 0x27])
      | Inr (Some response_text) \<Rightarrow>
          (case loads (clean_text response_text) of
             Inl msg \<Rightarrow> Inl msg
           | Inr batch_matches \<Rightarrow> iterate batch_matches))"

text \<open>
  One turn of the loop over \<^verbatim>\<open>range(total_batches)\<close>; the state is
  \<^verbatim>\<open>all_matches\<close> and the trace. \<open>build_prompt\<close> is the branch of the mode, which
  the source takes anew in every turn. The handler reports and goes on to the next
  turn; the sleep of 1.5 is skipped then.
\<close>

definition match_batch ::
  "gen \<Rightarrow> loads \<Rightarrow> string \<Rightarrow> ('a list \<Rightarrow> string) \<Rightarrow> 'a list \<Rightarrow> nat \<Rightarrow> json list \<times> trace
     \<Rightarrow> nat \<Rightarrow> json list \<times> trace"
where
  "match_batch gen loads model_name build_prompt old_data batch_size acc batch_num =
     (case acc of (all_matches, tr) \<Rightarrow>
        let batch = old_batch old_data batch_size batch_num;
            n_batches = total_batches (length old_data) batch_size;
            tr1 = tr @ [StatusText (''Processing batch '' @ str_nat (batch_num + 1) @ ''/''
                                      @ str_nat n_batches @ '' ('' @ str_nat (length batch)
                                      @ '' URLs)...''),
                        Progress (of_nat (batch_num + 1) / of_nat n_batches)];
            prompt = build_prompt batch;
            tr2 = tr1 @ [GenerateContent model_name prompt]
        in case batch_try gen loads model_name batch_num prompt of
             Inl msg \<Rightarrow>
               (all_matches,
                tr2 @ [StError (''Error in batch '' @ str_nat (batch_num + 1) @ '': '' @ msg)])
           | Inr batch_matches \<Rightarrow> (all_matches @ batch_matches, tr2 @ [Sleep (3 / 2)]))"

definition match_loop ::
  "gen \<Rightarrow> loads \<Rightarrow> string \<Rightarrow> ('a list \<Rightarrow> string) \<Rightarrow> 'a list \<Rightarrow> nat \<Rightarrow> trace \<Rightarrow> json list \<times> trace"
where
  "match_loop gen loads model_name build_prompt old_data batch_size tr =
     foldl (match_batch gen loads model_name build_prompt old_data batch_size) ([], tr)
       [0..<total_batches (length old_data) batch_size]"

text \<open>
  The arguments \<^verbatim>\<open>old_data\<close>, \<^verbatim>\<open>new_data\<close> and \<^verbatim>\<open>crawled\<close>: the caller passes
  the two lists of URLs with \<^verbatim>\<open>crawled\<close> false, or the two lists of crawl results
  with \<^verbatim>\<open>crawled\<close> true.
\<close>

datatype match_input =
    url_only "string list" "string list"
  | crawled "signal list" "signal list"

definition match_urls :: "gen \<Rightarrow> loads \<Rightarrow> string \<Rightarrow> match_input \<Rightarrow> trace \<Rightarrow> json list \<times> trace" where
  "match_urls gen loads model_name inp tr =
     (case inp of
        url_only old_urls new_urls \<Rightarrow>
          let old_data = map (\<lambda>u. \<lparr> url = u \<rparr>) old_urls;
              new_data = map (\<lambda>u. \<lparr> url = u \<rparr>) new_urls
          in match_loop gen loads model_name (\<lambda>b. url_prompt b new_data) old_data
               (batch_size_of model_name) tr
      | crawled old_results new_results \<Rightarrow>
          let old_data = filter (\<lambda>it. status it = success) old_results
          in match_loop gen loads model_name (\<lambda>b. crawled_prompt b new_results) old_data
               (batch_size_of model_name) tr)"

text \<open>The prompts that a run sends, one for each batch, in order.\<close>

definition prompts :: "string \<Rightarrow> match_input \<Rightarrow> string list" where
  "prompts model_name inp =
     (case inp of
        url_only old_urls new_urls \<Rightarrow>
          map (\<lambda>b. url_prompt b (map (\<lambda>u. \<lparr> url = u \<rparr>) new_urls))
            (batches (map (\<lambda>u. \<lparr> url = u \<rparr>) old_urls) (batch_size_of model_name))
      | crawled old_results new_results \<Rightarrow>
          map (\<lambda>b. crawled_prompt b new_results)
            (batches (filter (\<lambda>it. status it = success) old_results)
               (batch_size_of model_name)))"

text \<open>What a batch adds to \<^verbatim>\<open>all_matches\<close>: nothing when its \<^verbatim>\<open>try\<close> block raised.\<close>

definition appended :: "json list raising \<Rightarrow> json list" where
  "appended r = (case r of Inl msg \<Rightarrow> [] | Inr batch_matches \<Rightarrow> batch_matches)"

text \<open>What a batch reports: the message of the handler when its \<^verbatim>\<open>try\<close> block raised.\<close>

definition batch_report :: "nat \<Rightarrow> json list raising \<Rightarrow> string list" where
  "batch_report batch_num r =
     (case r of
        Inl msg \<Rightarrow> [''Error in batch '' @ str_nat (batch_num + 1) @ '': '' @ msg]
      | Inr batch_matches \<Rightarrow> [])"

text \<open>The calls of the inference service in a trace, in order.\<close>

fun calls :: "trace \<Rightarrow> (string \<times> string) list" where
  "calls [] = []"
| "calls (GenerateContent m p # es) = (m, p) # calls es"
| "calls (e # es) = calls es"

text \<open>The errors reported in a trace, in order.\<close>

fun reported :: "trace \<Rightarrow> string list" where
  "reported [] = []"
| "reported (StError msg # es) = msg # reported es"
| "reported (e # es) = reported es"

subsection \<open>The summary of the results page\<close>

text \<open>
  The three sums at the top of the results and the total beside them. The matches are
  what \<^verbatim>\<open>match_urls\<close> returned, so \<^verbatim>\<open>m['confidence']\<close> and the comparisons with
  a float can raise.
\<close>

datatype py_error = KeyError string | TypeError

text \<open>\<^verbatim>\<open>m[key]\<close> for a string key: only a dictionary can be read that way.\<close>

fun getitem :: "json \<Rightarrow> string \<Rightarrow> py_error + json" where
  "getitem (JObj kvs) k = (case map_of kvs k of Some v \<Rightarrow> Inr v | None \<Rightarrow> Inl (KeyError k))"
| "getitem m k = Inl TypeError"











subsection \<open>Match records\<close>

text \<open>
  The confidence of a match record as the specification has it, a real number: the value
  under the key \<^verbatim>\<open>confidence\<close> when that is an \<^verbatim>\<open>int\<close> or a finite \<^verbatim>\<open>float\<close>.
\<close>

definition confidence_of :: "json \<Rightarrow> rat option" where
  "confidence_of m =
     (case getitem m ''confidence'' of
        Inr (JInt i) \<Rightarrow> Some (of_int i)
      | Inr (JFloat (Finite r)) \<Rightarrow> Some r
      | _ \<Rightarrow> None)"

text \<open>
  The invariant the specification states for a match record, in its words: the old and
  the new URL are non-empty strings and the confidence is a real number in the closed
  unit interval.
\<close>

definition spec_match_invariant :: "json \<Rightarrow> bool" where
  "spec_match_invariant m =
     (case (getitem m ''oldUrl'', getitem m ''newUrl'', confidence_of m) of
        (Inr (JStr old_url), Inr (JStr new_url), Some c) \<Rightarrow>
          old_url \<noteq> [] \<and> new_url \<noteq> [] \<and> 0 \<le> c \<and> c \<le> 1
      | _ \<Rightarrow> False)"

subsection \<open>An example service\<close>

text \<open>
  A response of the shape the prompt asks for, the value \<^verbatim>\<open>json.loads\<close> gives for it,
  and a service whose first answer is no JSON and whose later answers are fenced JSON.
\<close>

definition example_match :: "rat \<Rightarrow> json" where
  "example_match c =
     JObj [(''oldUrl'', JStr ''https://old.example/a''), (''newUrl'', JStr ''https://new.example/a''),
           (''confidence'', JFloat (Finite c)), (''reason'', JStr ''slug match'')]"

definition example_text :: "string \<Rightarrow> string" where
  \<open>example_text c =
     ''[{"oldUrl": "https://old.example/a", "newUrl": "https://new.example/a", "confidence": ''
       @ c @ '', "reason": "slug match"}]''\<close>

definition example_loads :: loads where
  "example_loads s =
     (if s = example_text ''0.95'' then Inr (JArr [example_match (95 / 100)])
      else if s = example_text ''1.5'' then Inr (JArr [example_match (3 / 2)])
      else Inl ''Expecting value: line 1 column 1 (char 0)'')"

definition example_gen :: gen where
  "example_gen batch_num model_name prompt =
     (if batch_num = 0 then Inr (Some ''Sorry, I cannot do that.'')
      else Inr (Some (''```json\<newline>'' @ example_text ''0.95'' @ ''\<newline>```'')))"

section \<open>Properties\<close>

subsection \<open>The fetcher\<close>

lemma req_url_build [simp]: "req_url (build_request u rc creds) = u"
  by (simp add: build_request_def)

lemma gets_append [simp]: "gets (xs @ ys) = gets xs @ gets ys"
  by (induction xs rule: gets.induct) simp_all

lemma gets_retries:
  "length (gets (concat (map (\<lambda>k. [Sleep (d k), Get (r k)]) ks))) = length ks"
  by (induction ks) simp_all




lemma fetch_timeouts:
  assumes all: "\<forall>h r. req_url r = u \<longrightarrow> net h r = Raise Timeout"
  shows "rc \<le> m \<Longrightarrow> fetch_page_content net u rc m creds tr =
     (no_content u failed ''Timeout'',
      tr @ Get (build_request u rc creds) #
        concat (map (\<lambda>k. [Sleep (2 ^ k), Get (build_request u (Suc k) creds)]) [rc..<m]))"
proof (induction "m - rc" arbitrary: rc tr)
  case 0
  then have "rc = m" by simp
  moreover have "net tr (build_request u m creds) = Raise Timeout"
    using all by simp
  ultimately show ?case
    by (subst fetch_page_content.simps) (simp add: try_body_def)
next
  case (Suc d)
  then have lt: "rc < m" and d: "d = m - Suc rc" and le: "Suc rc \<le> m" by simp_all
  have out: "net tr (build_request u rc creds) = Raise Timeout"
    using all by simp
  have step: "fetch_page_content net u rc m creds tr =
      fetch_page_content net u (Suc rc) m creds
        ((tr @ [Get (build_request u rc creds)]) @ [Sleep (2 ^ rc)])"
    using lt out by (subst fetch_page_content.simps) (simp add: try_body_def)
  show ?case
    unfolding step Suc.hyps(1) [OF d le]
    using lt by (simp add: upt_conv_Cons)
qed



text \<open>
  C4. When every request for a URL times out, the call with retry count 0 (and any
  retry budget, the default 3 among them) makes the first attempt, then for each
  \<open>k\<close> below \<^verbatim>\<open>max_retries\<close> sleeps \<open>2 ^ k\<close> and makes attempt \<open>k + 1\<close>, and
  returns status \<^verbatim>\<open>failed\<close> with the error \<^verbatim>\<open>Timeout\<close>: \<^verbatim>\<open>max_retries + 1\<close>
  requests in all.
\<close>

theorem fetch_timeout_every_attempt:
  assumes "\<forall>h r. req_url r = u \<longrightarrow> net h r = Raise Timeout"
  shows "fetch_page_content net u 0 max_retries creds tr =
     (no_content u failed ''Timeout'',
      tr @ Get (build_request u 0 creds) #
        concat (map (\<lambda>k. [Sleep (2 ^ k), Get (build_request u (Suc k) creds)])
                 [0..<max_retries]))
   \<and> length (gets (snd (fetch_page_content net u 0 max_retries creds tr)))
       = length (gets tr) + (max_retries + 1)"
proof -
  have eq: "fetch_page_content net u 0 max_retries creds tr =
     (no_content u failed ''Timeout'',
      tr @ Get (build_request u 0 creds) #
        concat (map (\<lambda>k. [Sleep (2 ^ k), Get (build_request u (Suc k) creds)])
                 [0..<max_retries]))"
    using fetch_timeouts [OF assms, of 0 max_retries creds tr] by simp
  show ?thesis
    unfolding eq by (simp add: gets_retries)
qed

theorem fetch_timeout_every_attempt_witness:
  "fetch_page_content (\<lambda>h r. Raise Timeout) ''https://old.example/a'' 0 3 None [] =
     (\<lparr> url = ''https://old.example/a'', title = [], heading = [], description = [],
         content = [], status = failed, error = Some ''Timeout'' \<rparr>,
      [Get (build_request ''https://old.example/a'' 0 None), Sleep 1,
       Get (build_request ''https://old.example/a'' 1 None), Sleep 2,
       Get (build_request ''https://old.example/a'' 2 None), Sleep 4,
       Get (build_request ''https://old.example/a'' 3 None)])"
  using fetch_timeout_every_attempt
          [of "''https://old.example/a''" "\<lambda>h r. Raise Timeout" 3 None "[]"]
  by (simp add: upt_conv_Cons no_content_def numeral_2_eq_2 numeral_3_eq_3)

text \<open>
  C5. When the response of an attempt has the status code 401 or 403, the call
  returns at once with status \<^verbatim>\<open>auth_required\<close>: the request of this attempt is the
  only event it adds to the trace, whatever the retry count and the retry budget.
\<close>

theorem fetch_auth_required_no_retry:
  assumes "net tr (build_request u retry_count creds) = Response code page"
    and "code = 401 \<or> code = 403"
  shows "fetch_page_content net u retry_count max_retries creds tr =
     (no_content u auth_required (''Authentication required (HTTP '' @ str_nat code @ '')''),
      tr @ [Get (build_request u retry_count creds)])"
  using assms
  by (subst fetch_page_content.simps) (auto simp add: try_body_def raise_for_status_def)

theorem fetch_auth_required_no_retry_witness:
  "fetch_page_content
     (\<lambda>h r. Response 403
        \<lparr> title_tag = None, h1_tag = None, meta_description = None, p_tags = [] \<rparr>)
     ''https://old.example/a'' 0 3 None [] =
     (\<lparr> url = ''https://old.example/a'', title = [], heading = [], description = [],
         content = [], status = auth_required,
         error = Some ''Authentication required (HTTP 403)'' \<rparr>,
      [Get (build_request ''https://old.example/a'' 0 None)])"
  using fetch_auth_required_no_retry
          [of "\<lambda>h r. Response 403
                 \<lparr> title_tag = None, h1_tag = None, meta_description = None, p_tags = [] \<rparr>"
              "[]" "''https://old.example/a''" 0 None 403 _ 3]
  by (simp add: no_content_def str_nat.simps)

subsection \<open>The crawl\<close>




subsection \<open>Batches\<close>

lemma total_batches_bounds:
  assumes "0 < n"
  shows "m \<le> total_batches m n * n" and "0 < m \<Longrightarrow> (total_batches m n - 1) * n < m"
    and "(total_batches m 0 = 0)" and "(m = 0) = (total_batches m n = 0)"
proof -
  let ?k = "(m + n - 1) div n"
  have a: "?k * n \<le> m + n - 1"
    by simp
  have b: "m + n - 1 < ?k * n + n"
    using assms
    by (metis add.commute dividend_less_div_times mult.commute)
  show "m \<le> total_batches m n * n"
    unfolding total_batches_def using b assms by linarith
  show "0 < m \<Longrightarrow> (total_batches m n - 1) * n < m"
  proof (cases ?k)
    case 0
    assume "0 < m"
    then show ?thesis using 0 by (simp add: total_batches_def)
  next
    case (Suc j)
    assume "0 < m"
    have "Suc j * n \<le> m + n - 1" using a unfolding Suc .
    then have "j * n + n \<le> m + n - 1" by simp
    then have "j * n < m" using \<open>0 < m\<close> by linarith
    then show ?thesis using Suc by (simp add: total_batches_def)
  qed
  show "(total_batches m 0 = 0)" by (simp add: total_batches_def)
  show "(m = 0) = (total_batches m n = 0)"
    unfolding total_batches_def using assms
    by (auto simp: div_eq_0_iff)
qed

lemma total_batches_ceiling:
  assumes "0 < n"
  shows "int (total_batches m n) = \<lceil>real m / real n\<rceil>"
proof (rule sym, rule ceiling_unique)
  show "real_of_int (int (total_batches m n)) - 1 < real m / real n"
  proof (cases "m = 0")
    case True
    then show ?thesis using total_batches_bounds(4) [OF assms, of m] by simp
  next
    case False
    then have "(total_batches m n - 1) * n < m"
      using total_batches_bounds(2) [OF assms] by simp
    moreover have "0 < total_batches m n"
      using False total_batches_bounds(4) [OF assms, of m] by simp
    ultimately have "(real (total_batches m n) - 1) * real n < real m"
      by (metis One_nat_def Suc_leI of_nat_1 of_nat_diff of_nat_less_iff of_nat_mult)
    then show ?thesis
      using assms by (simp add: field_simps)
  qed
  show "real m / real n \<le> real_of_int (int (total_batches m n))"
  proof -
    have "real m \<le> real (total_batches m n) * real n"
      using total_batches_bounds(1) [OF assms, of m]
      by (metis of_nat_le_iff of_nat_mult)
    then show ?thesis using assms by (simp add: field_simps)
  qed
qed

lemma old_batch_take_drop:
  "old_batch xs n b = take n (drop (b * n) xs)"
  by (auto simp: old_batch_def slice_def Let_def min_def)

lemma concat_chunks:
  "concat (map (\<lambda>b. take n (drop (b * n) xs)) [0..<k]) = take (k * n) xs"
proof (induction k)
  case 0
  show ?case by simp
next
  case (Suc k)
  have "take (k * n) xs @ take n (drop (k * n) xs) = take (k * n + n) xs"
    by (simp add: take_add)
  with Suc show ?case by (simp add: add.commute)
qed

lemma concat_batches:
  assumes "0 < n"
  shows "concat (batches xs n) = xs"
proof -
  have "concat (batches xs n) = take (total_batches (length xs) n * n) xs"
    unfolding batches_def using concat_chunks [of n xs]
    by (simp add: old_batch_take_drop [abs_def])
  then show ?thesis
    using total_batches_bounds(1) [OF assms, of "length xs"] by simp
qed

subsection \<open>The matching loop\<close>

lemma calls_append [simp]: "calls (xs @ ys) = calls xs @ calls ys"
  by (induction xs rule: calls.induct) simp_all

lemma reported_append [simp]: "reported (xs @ ys) = reported xs @ reported ys"
  by (induction xs rule: reported.induct) simp_all

lemma match_batch_step:
  "match_batch g l m bp old bs (acc, tr) b = (acc', tr') \<Longrightarrow>
     acc' = acc @ appended (batch_try g l m b (bp (old_batch old bs b)))
     \<and> calls tr' = calls tr @ [(m, bp (old_batch old bs b))]
     \<and> reported tr' = reported tr @ batch_report b (batch_try g l m b (bp (old_batch old bs b)))"
  by (auto simp: match_batch_def Let_def appended_def batch_report_def split: sum.splits)

lemma match_fold:
  "foldl (match_batch g l m bp old bs) (acc, tr) ks = (acc', tr') \<Longrightarrow>
     acc' = acc @ concat (map (\<lambda>b. appended (batch_try g l m b (bp (old_batch old bs b)))) ks)
     \<and> calls tr' = calls tr @ map (\<lambda>b. (m, bp (old_batch old bs b))) ks
     \<and> reported tr' = reported tr
          @ concat (map (\<lambda>b. batch_report b (batch_try g l m b (bp (old_batch old bs b)))) ks)"
proof (induction ks arbitrary: acc tr)
  case Nil
  then show ?case by simp
next
  case (Cons k ks)
  obtain acc1 tr1 where s: "match_batch g l m bp old bs (acc, tr) k = (acc1, tr1)"
    by (cases "match_batch g l m bp old bs (acc, tr) k")
  have "foldl (match_batch g l m bp old bs) (acc1, tr1) ks = (acc', tr')"
    using Cons.prems s by simp
  from Cons.IH [OF this] match_batch_step [OF s] show ?case by simp
qed

lemma match_loop_result:
  "match_loop g l m bp old bs tr = (ms, tr') \<Longrightarrow>
     ms = concat (map (\<lambda>b. appended (batch_try g l m b (map bp (batches old bs) ! b)))
                  [0..<length (batches old bs)])
     \<and> calls tr' = calls tr @ map (Pair m) (map bp (batches old bs))
     \<and> reported tr' = reported tr
          @ concat (map (\<lambda>b. batch_report b (batch_try g l m b (map bp (batches old bs) ! b)))
                     [0..<length (batches old bs)])"
proof -
  assume r: "match_loop g l m bp old bs tr = (ms, tr')"
  let ?n = "total_batches (length old) bs"
  have len: "length (batches old bs) = ?n" by (simp add: batches_def)
  have nth: "\<And>b. b < ?n \<Longrightarrow> map bp (batches old bs) ! b = bp (old_batch old bs b)"
    by (simp add: batches_def)
  have f: "foldl (match_batch g l m bp old bs) ([], tr) [0..<?n] = (ms, tr')"
    using r by (simp add: match_loop_def)
  have c: "map (Pair m) (map bp (batches old bs)) = map (\<lambda>b. (m, bp (old_batch old bs b))) [0..<?n]"
    by (simp add: batches_def)
  have e1: "map (\<lambda>b. appended (batch_try g l m b (map bp (batches old bs) ! b))) [0..<?n]
      = map (\<lambda>b. appended (batch_try g l m b (bp (old_batch old bs b)))) [0..<?n]"
    by (intro map_cong refl) (simp add: nth)
  have e2: "map (\<lambda>b. batch_report b (batch_try g l m b (map bp (batches old bs) ! b))) [0..<?n]
      = map (\<lambda>b. batch_report b (batch_try g l m b (bp (old_batch old bs b)))) [0..<?n]"
    by (intro map_cong refl) (simp add: nth)
  show ?thesis
    using match_fold [OF f] unfolding len c e1 e2 by simp
qed

lemma match_urls_result:
  "match_urls g l m inp tr = (ms, tr') \<Longrightarrow>
     ms = concat (map (\<lambda>b. appended (batch_try g l m b (prompts m inp ! b)))
                  [0..<length (prompts m inp)])
     \<and> calls tr' = calls tr @ map (Pair m) (prompts m inp)
     \<and> reported tr' = reported tr
          @ concat (map (\<lambda>b. batch_report b (batch_try g l m b (prompts m inp ! b)))
                     [0..<length (prompts m inp)])"
proof (cases inp)
  case (url_only old_urls new_urls)
  assume "match_urls g l m inp tr = (ms, tr')"
  then show ?thesis
    using match_loop_result [of g l m _ "map (\<lambda>u. \<lparr> url = u \<rparr>) old_urls" "batch_size_of m" tr ms tr']
    by (simp add: url_only match_urls_def prompts_def Let_def)
next
  case (crawled old_results new_results)
  assume "match_urls g l m inp tr = (ms, tr')"
  then show ?thesis
    using match_loop_result [of g l m _ "filter (\<lambda>it. status it = success) old_results" "batch_size_of m" tr ms tr']
    by (simp add: crawled match_urls_def prompts_def Let_def)
qed


text \<open>
  C6. For every list and every positive batch size \<open>n\<close>, the batches the loop of
  \<^verbatim>\<open>match_urls\<close> walks through are as many as the length divided by \<open>n\<close>, rounded
  up; batch \<open>i\<close> is the \<open>n\<close> items from position \<open>i * n\<close> on; every batch
  but the last has \<open>n\<close> items, none is empty or longer than \<open>n\<close>; and the
  batches in order make up the list again.
\<close>

theorem batches_partition:
  assumes "0 < n"
  shows "int (length (batches xs n)) = \<lceil>real (length xs) / real n\<rceil>
    \<and> concat (batches xs n) = xs
    \<and> (\<forall>i < length (batches xs n). batches xs n ! i = take n (drop (i * n) xs))
    \<and> (\<forall>i. Suc i < length (batches xs n) \<longrightarrow> length (batches xs n ! i) = n)
    \<and> (\<forall>b \<in> set (batches xs n). 0 < length b \<and> length b \<le> n)"
proof -
  let ?k = "total_batches (length xs) n"
  have len: "length (batches xs n) = ?k" by (simp add: batches_def)
  have nth: "batches xs n ! i = take n (drop (i * n) xs)" if "i < ?k" for i
    using that by (simp add: batches_def old_batch_take_drop)
  have full: "length (batches xs n ! i) = n" if "Suc i < ?k" for i
  proof -
    have "0 < length xs"
      using that total_batches_bounds(4) [OF assms, of "length xs"] by (cases "length xs") auto
    then have "(?k - 1) * n < length xs"
      by (rule total_batches_bounds(2) [OF assms])
    moreover have "Suc i * n \<le> (?k - 1) * n"
      using that by (intro mult_le_mono1) simp
    ultimately have "Suc i * n < length xs" by (rule le_less_trans [rotated])
    then have "i * n + n \<le> length xs" by simp
    then show ?thesis using that nth [of i] by simp
  qed
  have some: "0 < length b \<and> length b \<le> n" if "b \<in> set (batches xs n)" for b
  proof -
    from that obtain i where i: "i < ?k" "b = batches xs n ! i"
      unfolding len [symmetric] by (auto simp: in_set_conv_nth)
    then have b: "b = take n (drop (i * n) xs)" using nth by simp
    have "0 < length xs"
      using i total_batches_bounds(4) [OF assms, of "length xs"] by (cases "length xs") auto
    then have "(?k - 1) * n < length xs"
      by (rule total_batches_bounds(2) [OF assms])
    moreover have "i * n \<le> (?k - 1) * n"
      using i by (intro mult_le_mono1) simp
    ultimately have "i * n < length xs" by (rule le_less_trans [rotated])
    then show ?thesis using b assms by simp
  qed
  show ?thesis
    using total_batches_ceiling [OF assms, of "length xs"] concat_batches [OF assms, of xs]
      nth full some
    unfolding len by blast
qed

theorem batches_partition_witness:
  "batches [1, 2, 3, 4, 5 :: nat] 2 = [[1, 2], [3, 4], [5]]
   \<and> int (length (batches [1, 2, 3, 4, 5 :: nat] 2)) = \<lceil>real 5 / real 2\<rceil>
   \<and> concat (batches [1, 2, 3, 4, 5 :: nat] 2) = [1, 2, 3, 4, 5]"
  using batches_partition [of 2 "[1, 2, 3, 4, 5 :: nat]"]
  by (simp add: batches_def total_batches_def old_batch_def slice_def upt_conv_Cons)

text \<open>
  C10. With no old item, in either mode and for every model name, new side and
  service, \<^verbatim>\<open>match_urls\<close> returns no match and leaves the trace as it was: no batch is
  built and the inference service is not called.
\<close>

theorem match_urls_no_old_items:
  "match_urls gen loads m (url_only [] new_urls) tr = ([], tr)
   \<and> match_urls gen loads m (crawled [] new_results) tr = ([], tr)"
  by (simp add: match_urls_def match_loop_def total_batches_def batch_size_of_def)


text \<open>
  C1. When the \<^verbatim>\<open>try\<close> block of batch \<open>k\<close> raises (the call of the service
  raises, or its text does not parse) and the response of batch \<open>k + 1\<close> parses to an
  array, \<^verbatim>\<open>match_urls\<close> returns: its list is what the batches before \<open>k\<close> gave,
  then the array of batch \<open>k + 1\<close>, then what the later batches gave; the service was
  called once for every batch, the later ones included; and the error of batch \<open>k\<close>
  was reported.
\<close>

theorem match_urls_bad_batch:
  assumes "Suc k < length (prompts m inp)"
    and "batch_try gen loads m k (prompts m inp ! k) = Inl msg"
    and "gen (Suc k) m (prompts m inp ! Suc k) = Inr (Some text)"
    and "loads (clean_text text) = Inr (JArr batch_matches)"
  shows "\<exists>ms tr'.
     match_urls gen loads m inp tr = (ms, tr')
     \<and> ms = concat (map (\<lambda>b. appended (batch_try gen loads m b (prompts m inp ! b))) [0..<k])
            @ batch_matches
            @ concat (map (\<lambda>b. appended (batch_try gen loads m b (prompts m inp ! b)))
                        [Suc (Suc k)..<length (prompts m inp)])
     \<and> calls tr' = calls tr @ map (Pair m) (prompts m inp)
     \<and> ''Error in batch '' @ str_nat (k + 1) @ '': '' @ msg \<in> set (reported tr')"
proof -
  let ?n = "length (prompts m inp)"
  let ?f = "\<lambda>b. appended (batch_try gen loads m b (prompts m inp ! b))"
  let ?g = "\<lambda>b. batch_report b (batch_try gen loads m b (prompts m inp ! b))"
  obtain ms tr' where r: "match_urls gen loads m inp tr = (ms, tr')"
    by (cases "match_urls gen loads m inp tr")
  note res = match_urls_result [OF r]
  have split: "[0..<?n] = [0..<k] @ k # Suc k # [Suc (Suc k)..<?n]"
    using assms(1) by (metis Suc_lessD le0 upt_add_eq_append upt_conv_Cons le_add2 add.commute
        le_Suc_ex less_imp_le_nat)
  have fk: "?f k = []"
    using assms(2) by (simp add: appended_def)
  have fk1: "?f (Suc k) = batch_matches"
    using assms(3,4) by (simp add: appended_def batch_try_def)
  have gk: "?g k = [''Error in batch '' @ str_nat (k + 1) @ '': '' @ msg]"
    using assms(2) by (simp add: batch_report_def)
  have ms: "ms = concat (map ?f [0..<k]) @ batch_matches @ concat (map ?f [Suc (Suc k)..<?n])"
    using res fk fk1 by (simp add: split)
  have "reported tr' = reported tr @ concat (map ?g [0..<?n])"
    using res by simp
  then have "''Error in batch '' @ str_nat (k + 1) @ '': '' @ msg \<in> set (reported tr')"
    using gk by (simp add: split)
  with r ms res show ?thesis by simp
qed

lemma example_clean:
  "clean_text (''```json\<newline>'' @ example_text ''0.95'' @ ''\<newline>```'') = example_text ''0.95''"
  by (simp add: clean_text_def example_text_def strip_def isspace_def)

theorem match_urls_bad_batch_witness:
  "fst (match_urls example_gen example_loads ''gemini-3-pro-preview''
          (url_only (replicate 51 ''https://old.example/a'') [''https://new.example/a'']) [])
     = [example_match (95 / 100)]
   \<and> ''Error in batch 1: Expecting value: line 1 column 1 (char 0)''
       \<in> set (reported (snd (match_urls example_gen example_loads ''gemini-3-pro-preview''
          (url_only (replicate 51 ''https://old.example/a'') [''https://new.example/a'']) [])))"
proof -
  let ?m = "''gemini-3-pro-preview''"
  let ?inp = "url_only (replicate 51 ''https://old.example/a'') [''https://new.example/a'']"
  let ?text = "''```json\<newline>'' @ example_text ''0.95'' @ ''\<newline>```''"
  have n: "length (prompts ?m ?inp) = Suc (Suc 0)"
    by (simp add: prompts_def batches_def batch_size_of_def total_batches_def)
  have h1: "Suc 0 < length (prompts ?m ?inp)"
    unfolding n by simp
  have h2: "batch_try example_gen example_loads ?m 0 (prompts ?m ?inp ! 0)
      = Inl ''Expecting value: line 1 column 1 (char 0)''"
    by (simp add: batch_try_def example_gen_def example_loads_def clean_text_def strip_def
          isspace_def example_text_def)
  have h3: "example_gen (Suc 0) ?m (prompts ?m ?inp ! Suc 0) = Inr (Some ?text)"
    by (simp add: example_gen_def)
  have h4: "example_loads (clean_text ?text) = Inr (JArr [example_match (95 / 100)])"
    unfolding example_clean by (simp add: example_loads_def)
  from match_urls_bad_batch [OF h1 h2 h3 h4, of "[]"] show ?thesis
    unfolding n by (auto simp: str_nat.simps)
qed

text \<open>
  C9, as amended. \<^verbatim>\<open>match_urls\<close> checks nothing in what it returns: its list is the
  concatenation, in batch order, of the items of the responses that parsed, and the
  elements of a response that parsed to an array are in it as they came, whatever their
  URLs and their confidence.
\<close>

theorem match_urls_pass_through:
  "fst (match_urls gen loads m inp tr)
     = concat (map (\<lambda>b. appended (batch_try gen loads m b (prompts m inp ! b)))
                 [0..<length (prompts m inp)])
   \<and> (b < length (prompts m inp) \<and> gen b m (prompts m inp ! b) = Inr (Some text)
        \<and> loads (clean_text text) = Inr (JArr batch_matches)
      \<longrightarrow> set batch_matches \<subseteq> set (fst (match_urls gen loads m inp tr)))"
proof -
  obtain ms tr' where r: "match_urls gen loads m inp tr = (ms, tr')"
    by (cases "match_urls gen loads m inp tr")
  let ?f = "\<lambda>b. appended (batch_try gen loads m b (prompts m inp ! b))"
  have ms: "ms = concat (map ?f [0..<length (prompts m inp)])"
    using match_urls_result [OF r] by simp
  have "set batch_matches \<subseteq> set ms"
    if "b < length (prompts m inp)" "gen b m (prompts m inp ! b) = Inr (Some text)"
      "loads (clean_text text) = Inr (JArr batch_matches)"
  proof -
    have "?f b = batch_matches"
      using that by (simp add: appended_def batch_try_def)
    then show ?thesis
      unfolding ms using that(1) by auto
  qed
  with r ms show ?thesis by simp
qed

theorem match_urls_pass_through_witness:
  "example_match (3 / 2)
     \<in> set (fst (match_urls (\<lambda>b m p. Inr (Some (example_text ''1.5''))) example_loads
                   ''gemini-3-flash-preview''
                   (url_only [''https://old.example/a''] [''https://new.example/a'']) []))"
proof -
  let ?gen = "\<lambda>(b :: nat) (m :: string) (p :: string). Inr (Some (example_text ''1.5'')) :: string option raising"
  let ?m = "''gemini-3-flash-preview''"
  let ?inp = "url_only [''https://old.example/a''] [''https://new.example/a'']"
  have h1: "0 < length (prompts ?m ?inp)"
    by (simp add: prompts_def batches_def batch_size_of_def total_batches_def)
  have h3: "example_loads (clean_text (example_text ''1.5'')) = Inr (JArr [example_match (3 / 2)])"
    by (simp add: clean_text_def strip_def isspace_def example_text_def example_loads_def)
  from match_urls_pass_through
          [of ?gen example_loads ?m ?inp "[]" 0 "example_text ''1.5''" "[example_match (3 / 2)]",
           THEN conjunct2]
    h1 h3
  show ?thesis by simp
qed

text \<open>
  C9, as stated, fails: a response with the confidence 1.5 is returned with the
  confidence 1.5, outside the closed unit interval.
\<close>

theorem match_urls_confidence_counterexample:
  "fst (match_urls (\<lambda>b m p. Inr (Some (example_text ''1.5''))) example_loads
          ''gemini-3-flash-preview''
          (url_only [''https://old.example/a''] [''https://new.example/a'']) [])
     = [example_match (3 / 2)]
   \<and> \<not> list_all spec_match_invariant
         (fst (match_urls (\<lambda>b m p. Inr (Some (example_text ''1.5''))) example_loads
                 ''gemini-3-flash-preview''
                 (url_only [''https://old.example/a''] [''https://new.example/a'']) []))"
proof -
  have "fst (match_urls (\<lambda>b m p. Inr (Some (example_text ''1.5''))) example_loads
          ''gemini-3-flash-preview''
          (url_only [''https://old.example/a''] [''https://new.example/a'']) [])
     = [example_match (3 / 2)]"
    by (simp add: match_urls_def match_loop_def match_batch_def batch_try_def
          batch_size_of_def total_batches_def Let_def
          clean_text_def strip_def isspace_def example_text_def example_loads_def)
  moreover have "\<not> spec_match_invariant (example_match (3 / 2))"
    by (simp add: spec_match_invariant_def confidence_of_def example_match_def)
  ultimately show ?thesis by simp
qed

subsection \<open>The summary\<close>






end
